theory Spec2Isabelle
  imports Main
begin

section \<open>Values exchanged with the card API\<close>

text \<open>
  A JavaScript string is a sequence of UTF-16 code units and \<open>.length\<close> counts them, so
  a string is a list of code units (natural numbers); \<open>lit\<close> turns an ASCII literal of the
  source into such a list.
\<close>

type_synonym jstring = "nat list"

definition lit :: "string \<Rightarrow> jstring" where
  "lit s = map of_char s"

text \<open>
  What \<open>response.json()\<close> can produce. A number is carried as the text JavaScript prints
  for it (\<open>String(n)\<close>), which is all the program can observe of it: zero, of either
  sign, prints as \<open>0\<close>. An object is the list of its own properties.
\<close>

datatype json =
    JNull
  | JBool bool
  | JNum jstring
  | JStr jstring
  | JArr "json list"
  | JObj "(jstring \<times> json) list"

text \<open>The operand test of \<open>||\<close> and of \<open>? :\<close>.\<close>

fun truthy :: "json \<Rightarrow> bool" where
  "truthy JNull = False"
| "truthy (JBool b) = b"
| "truthy (JNum t) = (t \<noteq> lit ''0'')"
| "truthy (JStr s) = (s \<noteq> [])"
| "truthy (JArr xs) = True"
| "truthy (JObj kvs) = True"

text \<open>
  Reading the property \<open>id\<close> or \<open>image\<close> of a value: a \<open>TypeError\<close> on \<open>null\<close>
  (the outer \<open>None\<close>), \<open>undefined\<close> (the inner \<open>None\<close>) on a primitive, on an array
  and on an object without the property. Only these two names are read by the program.
\<close>

fun property :: "json \<Rightarrow> jstring \<Rightarrow> json option option" where
  "property JNull k = None"
| "property (JObj kvs) k = Some (map_of kvs k)"
| "property v k = Some None"

text \<open>
  The text a template literal \<open>`${v}`\<close> inserts for a value. An array prints its
  elements separated by commas, \<open>null\<close> elements as nothing. An object prints as
  \<open>[object Object]\<close>, unless it has an own property \<open>toString\<close>: a parsed value is
  never callable, and the conversion throws (\<open>None\<close>).
\<close>

fun text_of :: "json \<Rightarrow> jstring option"
  and element_text :: "json \<Rightarrow> jstring option"
  and join_texts :: "json list \<Rightarrow> jstring option" where
  "text_of JNull = Some (lit ''null'')"
| "text_of (JBool b) = Some (lit (if b then ''true'' else ''false''))"
| "text_of (JNum t) = Some t"
| "text_of (JStr s) = Some s"
| "text_of (JArr xs) = join_texts xs"
| "text_of (JObj kvs) =
     (if lit ''toString'' \<in> set (map fst kvs) then None else Some (lit ''[object Object]''))"
| "element_text JNull = Some []"
| "element_text (JBool b) = text_of (JBool b)"
| "element_text (JNum t) = text_of (JNum t)"
| "element_text (JStr s) = text_of (JStr s)"
| "element_text (JArr xs) = text_of (JArr xs)"
| "element_text (JObj kvs) = text_of (JObj kvs)"
| "join_texts [] = Some []"
| "join_texts [x] = element_text x"
| "join_texts (x # y # ys) =
     (case element_text x of
        None \<Rightarrow> None
      | Some a \<Rightarrow> (case join_texts (y # ys) of
                    None \<Rightarrow> None
                  | Some b \<Rightarrow> Some (a @ lit '','' @ b)))"

definition template_text :: "json option \<Rightarrow> jstring option" where
  "template_text v = (case v of None \<Rightarrow> Some (lit ''undefined'') | Some x \<Rightarrow> text_of x)"

text \<open>
  How an awaited \<open>fetch\<close> followed by \<open>response.json()\<close> ends: the request is rejected
  (transport error), or a response arrives with its \<open>ok\<close> flag (status 2xx) and a body
  that parses (\<open>Some\<close>) or does not (\<open>None\<close>, \<open>response.json()\<close> rejects). The program
  touches no shared state between the two awaits, so they are one step.
\<close>

datatype fetch_result =
    Rejected
  | Response bool "json option"

section \<open>The component state\<close>

record state =
  card :: json
  searchQuery :: jstring
  searchResults :: "json list"
  selectedCard :: json
  previewCard :: json
  isSearching :: bool
  searchError :: "jstring option"
  requests :: "jstring list"

text \<open>
  The seven refs as \<open>script setup\<close> creates them (\<open>null\<close> is \<open>JNull\<close> for a card and
  \<open>None\<close> for the error message), and \<open>requests\<close>, the URLs passed to \<open>fetch\<close> so far.
\<close>

definition initial :: state where
  "initial = \<lparr> card = JNull, searchQuery = [], searchResults = [], selectedCard = JNull,
       previewCard = JNull, isSearching = False, searchError = None, requests = [] \<rparr>"

section \<open>Timers and the debounce utility\<close>

text \<open>
  A timer of the browser's table: the handle \<open>setTimeout\<close> returned, the time it is due,
  and the arrow function \<open>() => fn(...args)\<close> it runs, kept as \<open>fn\<close> and \<open>args\<close>.
\<close>

record ('a, 's) timer =
  handle :: nat
  due :: nat
  callee :: "'a \<Rightarrow> 's \<Rightarrow> 's"
  args :: 'a

text \<open>
  The world around the callbacks: \<open>timeoutId\<close> is the variable of the closure that
  \<open>debounce\<close> returns (\<open>None\<close> while it is \<open>undefined\<close>), \<open>now\<close> the clock in
  milliseconds, \<open>timers\<close> the pending timers in the order they were set, \<open>calls\<close> the
  arguments of every run of a timer's callback so far, and \<open>app\<close> the state the callbacks
  act on.
\<close>

record ('a, 's) world =
  timeoutId :: "nat option"
  now :: nat
  nextHandle :: nat
  timers :: "('a, 's) timer list"
  calls :: "'a list"
  app :: 's

definition clearTimeout :: "nat option \<Rightarrow> ('a, 's) world \<Rightarrow> ('a, 's) world" where
  "clearTimeout h w =
     (case h of
        None \<Rightarrow> w
      | Some i \<Rightarrow> w\<lparr>timers := filter (\<lambda>t. handle t \<noteq> i) (timers w)\<rparr>)"

text \<open>
  The host keeps a timer's delay as a signed 32-bit integer. A delay of at most
  2147483647 ms is honoured. A larger one is not: a browser wraps it and takes a negative
  result as 0, Node replaces it by 1 ms. Such a timer is taken as due at once; since a due
  timer may be run late, this admits every run that either host makes.
\<close>

definition timer_delay :: "nat \<Rightarrow> nat" where
  "timer_delay delay = (if delay \<le> 2147483647 then delay else 0)"

definition setTimeout ::
    "('a \<Rightarrow> 's \<Rightarrow> 's) \<Rightarrow> 'a \<Rightarrow> nat \<Rightarrow> ('a, 's) world \<Rightarrow> nat \<times> ('a, 's) world" where
  "setTimeout fn a delay w =
     (nextHandle w,
      w\<lparr>nextHandle := Suc (nextHandle w),
        timers := timers w @
          [\<lparr>handle = nextHandle w, due = now w + timer_delay delay, callee = fn, args = a\<rparr>]\<rparr>)"

text \<open>One invocation, with arguments \<open>a\<close>, of the wrapper that \<open>debounce(fn, delay)\<close> returns.\<close>

definition debounce ::
    "('a \<Rightarrow> 's \<Rightarrow> 's) \<Rightarrow> nat \<Rightarrow> 'a \<Rightarrow> ('a, 's) world \<Rightarrow> ('a, 's) world" where
  "debounce fn delay a w =
     (let w1 = clearTimeout (timeoutId w) w;
          (i, w2) = setTimeout fn a delay w1
      in w2\<lparr>timeoutId := Some i\<rparr>)"

text \<open>
  The event loop. Time passes (\<open>elapse\<close>); a timer that is due may then be run
  (\<open>expire\<close>): the one due first, the oldest among equals. A timer is never run before it
  is due, and may be run late.
\<close>

fun earliest :: "('a, 's) timer list \<Rightarrow> ('a, 's) timer option" where
  "earliest [] = None"
| "earliest (t # ts) =
     (case earliest ts of
        None \<Rightarrow> Some t
      | Some u \<Rightarrow> if due u < due t then Some u else Some t)"

definition elapse :: "nat \<Rightarrow> ('a, 's) world \<Rightarrow> ('a, 's) world" where
  "elapse d w = w\<lparr>now := now w + d\<rparr>"

definition expire :: "('a, 's) world \<Rightarrow> ('a, 's) world" where
  "expire w =
     (case earliest (timers w) of
        None \<Rightarrow> w
      | Some t \<Rightarrow>
          if due t \<le> now w
          then w\<lparr>timers := filter (\<lambda>u. handle u \<noteq> handle t) (timers w),
                 calls := calls w @ [args t],
                 app := callee t (args t) (app w)\<rparr>
          else w)"

text \<open>A period without invocations of the wrapper: time passing and timers running.\<close>

datatype tick = Wait nat | Expire

fun pass :: "tick \<Rightarrow> ('a, 's) world \<Rightarrow> ('a, 's) world" where
  "pass (Wait d) w = elapse d w"
| "pass Expire w = expire w"

fun idle :: "tick list \<Rightarrow> ('a, 's) world \<Rightarrow> ('a, 's) world" where
  "idle [] w = w"
| "idle (k # ks) w = idle ks (pass k w)"

fun waited :: "tick list \<Rightarrow> nat" where
  "waited [] = 0"
| "waited (Wait d # ks) = d + waited ks"
| "waited (Expire # ks) = waited ks"

text \<open>
  The worlds a program reaches whose only timers are those of one wrapper
  \<open>debounce(fn, delay)\<close>: at most one timer is pending, it runs \<open>fn\<close>, and \<open>timeoutId\<close>
  holds its handle.
\<close>

definition tidy :: "('a \<Rightarrow> 's \<Rightarrow> 's) \<Rightarrow> ('a, 's) world \<Rightarrow> bool" where
  "tidy fn w =
     (length (timers w) \<le> 1 \<and>
      list_all (\<lambda>t. timeoutId w = Some (handle t) \<and> callee t = fn) (timers w))"

definition boot :: "'s \<Rightarrow> ('a, 's) world" where
  "boot s = \<lparr>timeoutId = None, now = 0, nextHandle = 1, timers = [], calls = [], app = s\<rparr>"

section \<open>The handlers of the component\<close>

definition search_url :: "jstring \<Rightarrow> jstring" where
  "search_url q = lit ''https://api.tcgdex.net/v2/en/cards?name='' @ q"

definition search_failed :: jstring where
  "search_failed = lit ''Failed to search cards. Please try again.''"

text \<open>
  \<open>search\<close> up to its \<open>await\<close>: to the end when the query is short, to the call of
  \<open>fetch\<close> otherwise. \<open>search_settled\<close> is the rest of it, run when the request has
  ended: the statements after the awaits, or the \<open>catch\<close> block.
\<close>

definition search :: "state \<Rightarrow> state" where
  "search s =
     (let s1 = s\<lparr>searchError := None\<rparr>
      in if length (searchQuery s1) > 2
         then s1\<lparr>isSearching := True,
                 requests := requests s1 @ [search_url (searchQuery s1)]\<rparr>
         else s1\<lparr>searchResults := [], isSearching := False\<rparr>)"

definition search_settled :: "fetch_result \<Rightarrow> state \<Rightarrow> state" where
  "search_settled r s =
     (case r of
        Response True (Some data) \<Rightarrow>
          s\<lparr>searchResults := (case data of JArr xs \<Rightarrow> xs | _ \<Rightarrow> []),
            isSearching := False\<rparr>
      | _ \<Rightarrow>
          s\<lparr>searchError := Some search_failed, searchResults := [], isSearching := False\<rparr>)"

definition debouncedSearch :: "(unit, state) world \<Rightarrow> (unit, state) world" where
  "debouncedSearch w = debounce (\<lambda>_. search) 300 () w"

text \<open>The callback of \<open>watch(searchQuery, ...)\<close>.\<close>

definition watch_searchQuery :: "(unit, state) world \<Rightarrow> (unit, state) world" where
  "watch_searchQuery w =
     (if length (searchQuery (app w)) = 0
      then w\<lparr>app := (app w)\<lparr>searchResults := [], isSearching := False\<rparr>\<rparr>
      else debouncedSearch w)"

text \<open>
  The URL of the detail request, \<open>None\<close> when building it throws (\<open>result\<close> is \<open>null\<close>,
  or its \<open>id\<close> has no text): the throw is inside the \<open>try\<close> and no request is made.
\<close>

definition card_url :: "json \<Rightarrow> jstring option" where
  "card_url result =
     (case property result (lit ''id'') of
        None \<Rightarrow> None
      | Some v \<Rightarrow>
          (case template_text v of
             None \<Rightarrow> None
           | Some t \<Rightarrow> Some (lit ''https://api.tcgdex.net/v2/en/cards/'' @ t)))"

definition selectCard :: "json \<Rightarrow> state \<Rightarrow> state" where
  "selectCard result s =
     (let s1 = s\<lparr>searchResults := [], searchQuery := [], previewCard := JNull\<rparr>
      in case card_url result of
           None \<Rightarrow> s1\<lparr>selectedCard := result\<rparr>
         | Some u \<Rightarrow> s1\<lparr>requests := requests s1 @ [u]\<rparr>)"

definition selectCard_settled :: "json \<Rightarrow> fetch_result \<Rightarrow> state \<Rightarrow> state" where
  "selectCard_settled result r s =
     (case r of
        Response True (Some fullCardData) \<Rightarrow> s\<lparr>selectedCard := fullCardData\<rparr>
      | _ \<Rightarrow> s\<lparr>selectedCard := result\<rparr>)"

definition showPreview :: "json \<Rightarrow> state \<Rightarrow> state" where
  "showPreview result s = s\<lparr>previewCard := result\<rparr>"

definition hidePreview :: "state \<Rightarrow> state" where
  "hidePreview s = s\<lparr>previewCard := JNull\<rparr>"

definition clearSelection :: "state \<Rightarrow> state" where
  "clearSelection s = s\<lparr>selectedCard := JNull\<rparr>"

text \<open>\<open>selectedCard.value || card.value\<close>, and the computed image URL (\<open>None\<close>: it throws).\<close>

definition activeCard :: "state \<Rightarrow> json" where
  "activeCard s = (if truthy (selectedCard s) then selectedCard s else card s)"

definition cardImageUrl :: "state \<Rightarrow> jstring option" where
  "cardImageUrl s =
     (if truthy (activeCard s)
      then (case property (activeCard s) (lit ''image'') of
              None \<Rightarrow> None
            | Some v \<Rightarrow>
                (case template_text v of
                   None \<Rightarrow> None
                 | Some t \<Rightarrow> Some (t @ lit ''/high.webp'')))
      else Some [])"

text \<open>
  The template shows the preview image inside the block of the results, which is
  rendered when \<open>searchResults.length > 0\<close>, and there under \<open>v-if="previewCard"\<close>.
\<close>

definition previewShown :: "state \<Rightarrow> bool" where
  "previewShown s = (length (searchResults s) > 0 \<and> truthy (previewCard s))"

definition default_url :: jstring where
  "default_url = lit ''https://api.tcgdex.net/v2/en/cards/swsh3-136''"

definition onMounted :: "state \<Rightarrow> state" where
  "onMounted s = s\<lparr>requests := requests s @ [default_url]\<rparr>"

definition onMounted_settled :: "fetch_result \<Rightarrow> state \<Rightarrow> state" where
  "onMounted_settled r s =
     (case r of
        Response True (Some data) \<Rightarrow> s\<lparr>card := data\<rparr>
      | _ \<Rightarrow> s)"

section \<open>The component as a transition system\<close>

text \<open>
  What can happen to the mounted component: the user edits the input (\<open>v-model\<close> assigns
  \<open>searchQuery\<close>), moves the pointer onto or off a result, clicks a result or the clear
  button; time passes and a due timer runs; a request ends. A write to \<open>searchQuery\<close>
  that changes its value runs the watcher once the handler has returned.
\<close>

datatype event =
    Input jstring
  | MouseEnter json
  | MouseLeave
  | ClickResult json
  | ClickClear
  | Elapse nat
  | Timer
  | SearchSettled fetch_result
  | CardSettled json fetch_result
  | DefaultSettled fetch_result

definition flush_watch :: "jstring \<Rightarrow> (unit, state) world \<Rightarrow> (unit, state) world" where
  "flush_watch old w = (if searchQuery (app w) = old then w else watch_searchQuery w)"

fun step :: "event \<Rightarrow> (unit, state) world \<Rightarrow> (unit, state) world" where
  "step (Input q) w = flush_watch (searchQuery (app w)) (w\<lparr>app := (app w)\<lparr>searchQuery := q\<rparr>\<rparr>)"
| "step (MouseEnter result) w = w\<lparr>app := showPreview result (app w)\<rparr>"
| "step MouseLeave w = w\<lparr>app := hidePreview (app w)\<rparr>"
| "step (ClickResult result) w =
     flush_watch (searchQuery (app w)) (w\<lparr>app := selectCard result (app w)\<rparr>)"
| "step ClickClear w = w\<lparr>app := clearSelection (app w)\<rparr>"
| "step (Elapse d) w = elapse d w"
| "step Timer w = expire w"
| "step (SearchSettled r) w = w\<lparr>app := search_settled r (app w)\<rparr>"
| "step (CardSettled result r) w = w\<lparr>app := selectCard_settled result r (app w)\<rparr>"
| "step (DefaultSettled r) w = w\<lparr>app := onMounted_settled r (app w)\<rparr>"

fun run :: "event list \<Rightarrow> (unit, state) world \<Rightarrow> (unit, state) world" where
  "run [] w = w"
| "run (e # es) w = run es (step e w)"

text \<open>The component once mounted: the refs as created, the default card requested.\<close>

definition mounted :: "(unit, state) world" where
  "mounted = boot (onMounted initial)"

text \<open>
  A search result as the list endpoint returns it, and the full record of the same card.
\<close>

definition furret :: json where
  "furret = JObj [(lit ''id'', JStr (lit ''swsh3-136'')), (lit ''name'', JStr (lit ''Furret'')),
     (lit ''image'', JStr (lit ''https://assets.tcgdex.net/en/swsh/swsh3/136''))]"

definition furret_full :: json where
  "furret_full = JObj [(lit ''id'', JStr (lit ''swsh3-136'')), (lit ''name'', JStr (lit ''Furret'')),
     (lit ''image'', JStr (lit ''https://assets.tcgdex.net/en/swsh/swsh3/136'')),
     (lit ''hp'', JNum (lit ''110''))]"

text \<open>
  A selection from the click to its end, nothing else happening in between: the click,
  and the end of the detail request when one was made.
\<close>

definition selectCard_run :: "json \<Rightarrow> fetch_result \<Rightarrow> (unit, state) world \<Rightarrow> (unit, state) world" where
  "selectCard_run result r w =
     (let w1 = step (ClickResult result) w
      in case card_url result of
           None \<Rightarrow> w1
         | Some u \<Rightarrow> step (CardSettled result r) w1)"

text \<open>
  A burst of invocations of the wrapper: each invocation with its arguments, followed by
  a period without invocations.
\<close>

fun invocations ::
    "('a \<Rightarrow> 's \<Rightarrow> 's) \<Rightarrow> nat \<Rightarrow> ('a \<times> tick list) list \<Rightarrow> ('a, 's) world \<Rightarrow> ('a, 's) world" where
  "invocations fn delay [] w = w"
| "invocations fn delay ((a, ks) # rest) w =
     invocations fn delay rest (idle ks (debounce fn delay a w))"

text \<open>A callback that keeps the arguments it was run with.\<close>

definition record_call :: "nat \<Rightarrow> nat list \<Rightarrow> nat list" where
  "record_call a xs = xs @ [a]"

text \<open>
  Worlds and runs of the component used as examples: two searches, for \<open>fur\<close> and
  for \<open>furr\<close>, under way at once, the first request failing and the second then
  succeeding; a search for \<open>fur\<close> under way;
  after a search for \<open>fur\<close> that failed;
  after one that returned a result; then with the pointer on the result, the query edited
  again and the debounce timer pending; with the default card loaded; and a session that
  searches, hovers and selects a card whose detail request fails.
\<close>

definition searching :: "(unit, state) world" where
  "searching = run [Input (lit ''fur''), Elapse 300, Timer] mounted"

definition overlapping :: "event list" where
  "overlapping = [Input (lit ''fur''), Elapse 300, Timer, Input (lit ''furr''), Elapse 300, Timer,
      SearchSettled Rejected, SearchSettled (Response True (Some (JArr [furret])))]"

definition failed_search :: "(unit, state) world" where
  "failed_search = run [Input (lit ''fur''), Elapse 300, Timer, SearchSettled Rejected] mounted"

definition listed :: "(unit, state) world" where
  "listed = run [Input (lit ''fur''), Elapse 300, Timer,
                 SearchSettled (Response True (Some (JArr [furret])))] mounted"

definition hovering :: "(unit, state) world" where
  "hovering = run [MouseEnter furret, Input (lit ''furr'')] listed"

definition loaded :: "(unit, state) world" where
  "loaded = step (DefaultSettled (Response True (Some furret_full))) mounted"

definition eevee :: json where
  "eevee = JObj [(lit ''id'', JStr (lit ''swsh3-130'')), (lit ''name'', JStr (lit ''Eevee''))]"

definition session :: "event list" where
  "session = [Input (lit ''eev''), Elapse 300, Timer,
      SearchSettled (Response True (Some (JArr [eevee]))), MouseEnter eevee,
      ClickResult eevee, CardSettled eevee (Response False None)]"

section \<open>The debounce wrapper keeps at most one timer\<close>

lemma tidy_boot: "tidy fn (boot s)"
  by (simp add: tidy_def boot_def)

lemma tidy_cases:
  assumes "tidy fn w"
  obtains (none) "timers w = []"
  | (one) t where "timers w = [t]" "timeoutId w = Some (handle t)" "callee t = fn"
  using assms unfolding tidy_def by (cases "timers w") auto

lemma debounce_timers_host:
  assumes "tidy fn w"
  shows "timers (debounce fn delay a w) =
           [\<lparr>handle = nextHandle w, due = now w + timer_delay delay, callee = fn, args = a\<rparr>]"
  using assms
  by (cases rule: tidy_cases)
     (simp_all add: debounce_def clearTimeout_def setTimeout_def split: option.splits)

lemma debounce_timers:
  assumes "tidy fn w" and "delay \<le> 2147483647"
  shows "timers (debounce fn delay a w) =
           [\<lparr>handle = nextHandle w, due = now w + delay, callee = fn, args = a\<rparr>]"
  using debounce_timers_host [OF assms(1), of delay a] assms(2) by (simp add: timer_delay_def)

lemma search_delay: "(300::nat) \<le> 2147483647"
  by simp

lemma debounce_frame:
  "timeoutId (debounce fn delay a w) = Some (nextHandle w)"
  "app (debounce fn delay a w) = app w"
  "calls (debounce fn delay a w) = calls w"
  "now (debounce fn delay a w) = now w"
  "nextHandle (debounce fn delay a w) = Suc (nextHandle w)"
  by (simp_all add: debounce_def clearTimeout_def setTimeout_def split: option.splits)

lemma tidy_debounce: "tidy fn w \<Longrightarrow> tidy fn (debounce fn delay a w)"
  by (simp add: tidy_def debounce_timers_host debounce_frame)

lemma tidy_elapse: "tidy fn w \<Longrightarrow> tidy fn (elapse d w)"
  by (simp add: tidy_def elapse_def)

lemma expire_none: "timers w = [] \<Longrightarrow> expire w = w"
  by (simp add: expire_def)

lemma expire_one:
  "timers w = [t] \<Longrightarrow>
   expire w = (if due t \<le> now w
               then w\<lparr>timers := [], calls := calls w @ [args t],
                      app := callee t (args t) (app w)\<rparr>
               else w)"
  by (simp add: expire_def)

lemma tidy_expire: "tidy fn w \<Longrightarrow> tidy fn (expire w)"
  by (erule tidy_cases) (simp_all add: expire_none expire_one tidy_def)

lemma tidy_pass: "tidy fn w \<Longrightarrow> tidy fn (pass k w)"
  by (cases k) (simp_all add: tidy_elapse tidy_expire)

lemma tidy_idle: "tidy fn w \<Longrightarrow> tidy fn (idle ks w)"
  by (induction ks arbitrary: w) (simp_all add: tidy_pass)

lemma idle_none:
  "timers w = [] \<Longrightarrow>
   timers (idle ks w) = [] \<and> calls (idle ks w) = calls w \<and> app (idle ks w) = app w
   \<and> timeoutId (idle ks w) = timeoutId w"
proof (induction ks arbitrary: w)
  case Nil
  then show ?case by simp
next
  case (Cons k ks)
  have "timers (pass k w) = []" "calls (pass k w) = calls w" "app (pass k w) = app w"
    "timeoutId (pass k w) = timeoutId w"
    using Cons.prems by (cases k; simp add: elapse_def expire_none)+
  with Cons.IH [of "pass k w"] show ?case by simp
qed

lemma idle_one:
  "timers w = [t] \<Longrightarrow>
   (timers (idle ks w) = [t] \<and> calls (idle ks w) = calls w \<and> app (idle ks w) = app w
      \<and> now (idle ks w) = now w + waited ks \<and> timeoutId (idle ks w) = timeoutId w)
   \<or> (timers (idle ks w) = [] \<and> calls (idle ks w) = calls w @ [args t]
      \<and> app (idle ks w) = callee t (args t) (app w) \<and> due t \<le> now w + waited ks
      \<and> timeoutId (idle ks w) = timeoutId w)"
proof (induction ks arbitrary: w)
  case Nil
  then show ?case by simp
next
  case (Cons k ks)
  show ?case
  proof (cases k)
    case (Wait d)
    have "timers (pass k w) = [t]" using Cons.prems Wait by (simp add: elapse_def)
    from Cons.IH [OF this] show ?thesis using Wait by (auto simp: elapse_def)
  next
    case Expire
    show ?thesis
    proof (cases "due t \<le> now w")
      case True
      have e: "pass k w = w\<lparr>timers := [], calls := calls w @ [args t],
                      app := callee t (args t) (app w)\<rparr>"
        using Cons.prems Expire True by (simp add: expire_one)
      have "timers (pass k w) = []" by (simp add: e)
      from idle_none [OF this, of ks] show ?thesis using True by (simp add: e)
    next
      case False
      have "pass k w = w" using Cons.prems Expire False by (simp add: expire_one)
      with Cons.IH [of w] Cons.prems show ?thesis using Expire by simp
    qed
  qed
qed

section \<open>Reachable worlds of the component\<close>

lemma tidy_app [simp]: "tidy fn (w\<lparr>app := x\<rparr>) = tidy fn w"
  by (simp add: tidy_def)

lemma tidy_watch: "tidy (\<lambda>_. search) w \<Longrightarrow> tidy (\<lambda>_. search) (watch_searchQuery w)"
  by (simp add: watch_searchQuery_def debouncedSearch_def tidy_debounce)

lemma tidy_flush: "tidy (\<lambda>_. search) w \<Longrightarrow> tidy (\<lambda>_. search) (flush_watch old w)"
  by (simp add: flush_watch_def tidy_watch)

lemma tidy_step: "tidy (\<lambda>_. search) w \<Longrightarrow> tidy (\<lambda>_. search) (step e w)"
  by (cases e) (simp_all add: tidy_flush tidy_elapse tidy_expire)

lemma tidy_run: "tidy (\<lambda>_. search) w \<Longrightarrow> tidy (\<lambda>_. search) (run es w)"
  by (induction es arbitrary: w) (simp_all add: tidy_step)

lemma tidy_mounted: "tidy (\<lambda>_. search) mounted"
  by (simp add: mounted_def tidy_boot)

lemma search_short:
  "length (searchQuery s) < 3 \<Longrightarrow>
   search s = s\<lparr>searchError := None, searchResults := [], isSearching := False\<rparr>"
  by (simp add: search_def)

lemma search_long:
  "2 < length (searchQuery s) \<Longrightarrow>
   search s = s\<lparr>searchError := None, isSearching := True,
                requests := requests s @ [search_url (searchQuery s)]\<rparr>"
  by (simp add: search_def)

lemma search_card: "card (search s) = card s"
  by (simp add: search_def Let_def)

lemma expire_app_tidy:
  "tidy fn w \<Longrightarrow> app (expire w) = app w \<or> (\<exists>a. app (expire w) = fn a (app w))"
  by (erule tidy_cases) (auto simp: expire_none expire_one)

lemma watch_app_card: "card (app (watch_searchQuery w)) = card (app w)"
  by (simp add: watch_searchQuery_def debouncedSearch_def debounce_frame)

lemma flush_app_card: "card (app (flush_watch old w)) = card (app w)"
  by (simp add: flush_watch_def watch_app_card)

lemma step_card:
  assumes "tidy (\<lambda>_. search) w" and "\<forall>r. e \<noteq> DefaultSettled r"
  shows "card (app (step e w)) = card (app w)"
proof (cases e)
  case Timer
  with expire_app_tidy [OF assms(1)] show ?thesis by (auto simp: search_card)
next
  case (DefaultSettled r)
  with assms(2) show ?thesis by simp
qed (simp_all add: flush_app_card selectCard_def Let_def showPreview_def hidePreview_def
      clearSelection_def elapse_def search_settled_def selectCard_settled_def
      split: option.splits fetch_result.splits bool.splits)

lemma run_card:
  "tidy (\<lambda>_. search) w \<Longrightarrow> \<forall>r. DefaultSettled r \<notin> set es \<Longrightarrow>
   card (app (run es w)) = card (app w)"
proof (induction es arbitrary: w)
  case Nil
  then show ?case by simp
next
  case (Cons e es)
  have "card (app (step e w)) = card (app w)"
    using Cons.prems by (intro step_card) auto
  moreover have "card (app (run es (step e w))) = card (app (step e w))"
    using Cons.prems by (intro Cons.IH tidy_step) auto
  ultimately show ?case by simp
qed

lemma step_error_none:
  assumes "tidy (\<lambda>_. search) w" "searchError (app w) = None"
    "\<forall>r. e = SearchSettled r \<longrightarrow> (\<exists>d. r = Response True (Some d))"
  shows "searchError (app (step e w)) = None"
proof (cases e)
  case Timer
  from expire_app_tidy [OF assms(1)] assms(2) Timer show ?thesis
    by (auto simp: search_def Let_def)
next
  case (SearchSettled r)
  with assms(3) obtain d where "r = Response True (Some d)" by auto
  with SearchSettled assms(2) show ?thesis by (simp add: search_settled_def)
qed (use assms(2) in \<open>simp_all add: flush_watch_def watch_searchQuery_def debouncedSearch_def
      debounce_frame selectCard_def Let_def showPreview_def hidePreview_def clearSelection_def
      elapse_def selectCard_settled_def onMounted_settled_def
      split: option.splits fetch_result.splits bool.splits\<close>)

lemma run_error_none:
  "tidy (\<lambda>_. search) w \<Longrightarrow> searchError (app w) = None \<Longrightarrow>
   \<forall>r. SearchSettled r \<in> set es \<longrightarrow> (\<exists>d. r = Response True (Some d)) \<Longrightarrow>
   searchError (app (run es w)) = None"
proof (induction es arbitrary: w)
  case Nil
  then show ?case by simp
next
  case (Cons e es)
  have 1: "searchError (app (step e w)) = None"
    using Cons.prems by (intro step_error_none) auto
  have 2: "tidy (\<lambda>_. search) (step e w)" using Cons.prems(1) by (rule tidy_step)
  from Cons.IH [OF 2 1] Cons.prems(3) show ?case by simp
qed

lemma debounce_idle:
  assumes "tidy fn w" and "delay \<le> 2147483647"
  shows "(calls (idle ks (debounce fn delay a w)) = calls w
          \<and> app (idle ks (debounce fn delay a w)) = app w
          \<and> timers (idle ks (debounce fn delay a w)) = timers (debounce fn delay a w))
       \<or> (delay \<le> waited ks
          \<and> calls (idle ks (debounce fn delay a w)) = calls w @ [a]
          \<and> app (idle ks (debounce fn delay a w)) = fn a (app w)
          \<and> timers (idle ks (debounce fn delay a w)) = [])"
  using idle_one [OF debounce_timers [OF assms, of a], of ks]
  by (auto simp: debounce_frame debounce_timers [OF assms])

lemma superseded_dropped:
  assumes "tidy fn w" "waited ks < delay" "delay \<le> 2147483647"
  shows "calls (idle ks (debounce fn delay a w)) = calls w
       \<and> app (idle ks (debounce fn delay a w)) = app w
       \<and> tidy fn (idle ks (debounce fn delay a w))"
  using debounce_idle [OF assms(1) assms(3), of ks a] assms(2)
    tidy_idle [OF tidy_debounce [OF assms(1)], of ks delay a]
  by auto

lemma invocations_dropped:
  "tidy fn w \<Longrightarrow> list_all (\<lambda>(a, ks). waited ks < delay) bs \<Longrightarrow>
   delay \<le> 2147483647 \<Longrightarrow>
   calls (invocations fn delay bs w) = calls w
   \<and> app (invocations fn delay bs w) = app w
   \<and> tidy fn (invocations fn delay bs w)"
proof (induction bs arbitrary: w)
  case Nil
  then show ?case by simp
next
  case (Cons b bs)
  obtain a ks where b: "b = (a, ks)" by (cases b)
  from Cons.prems b have k: "waited ks < delay" and r: "list_all (\<lambda>(a, ks). waited ks < delay) bs"
    by simp_all
  from superseded_dropped [OF Cons.prems(1) k Cons.prems(3), of a]
  have s: "calls (idle ks (debounce fn delay a w)) = calls w"
    "app (idle ks (debounce fn delay a w)) = app w"
    "tidy fn (idle ks (debounce fn delay a w))" by simp_all
  from Cons.IH [OF s(3) r Cons.prems(3)] s(1,2) b show ?case by simp
qed

lemma debounce_fires_once:
  assumes "tidy fn w" "delay \<le> d" "delay \<le> 2147483647"
  shows "calls (idle (Wait d # Expire # ks) (debounce fn delay a w)) = calls w @ [a]
       \<and> app (idle (Wait d # Expire # ks) (debounce fn delay a w)) = fn a (app w)"
proof -
  let ?w1 = "debounce fn delay a w"
  let ?t = "\<lparr>handle = nextHandle w, due = now w + delay, callee = fn, args = a\<rparr>"
  have tm: "timers (elapse d ?w1) = [?t]" using debounce_timers [OF assms(1) assms(3), of a]
    by (simp add: elapse_def)
  have e: "expire (elapse d ?w1) = (elapse d ?w1)\<lparr>timers := [], calls := calls w @ [a],
                      app := fn a (app w)\<rparr>"
    using assms(2) by (subst expire_one [OF tm]) (simp add: elapse_def debounce_frame)
  have "timers (expire (elapse d ?w1)) = []" by (simp add: e)
  from idle_none [OF this, of ks] show ?thesis by (simp add: e)
qed

section \<open>Steps of the component\<close>

lemma click_app:
  "app (step (ClickResult result) w) =
     (selectCard result (app w))\<lparr>searchResults := [], isSearching :=
        (if searchQuery (app w) = [] then isSearching (app w) else False)\<rparr>"
  by (simp add: flush_watch_def watch_searchQuery_def selectCard_def Let_def split: option.splits)

lemma click_requests:
  "requests (app (step (ClickResult result) w)) =
     (case card_url result of None \<Rightarrow> requests (app w) | Some u \<Rightarrow> requests (app w) @ [u])"
  by (simp add: flush_watch_def watch_searchQuery_def selectCard_def Let_def split: option.splits)

lemma card_url_furret: "card_url furret = Some (lit ''https://api.tcgdex.net/v2/en/cards/swsh3-136'')"
  by (simp add: card_url_def furret_def lit_def template_text_def)

lemma input_empty:
  "step (Input []) w =
     (if searchQuery (app w) = [] then w\<lparr>app := (app w)\<lparr>searchQuery := []\<rparr>\<rparr>
      else w\<lparr>app := (app w)\<lparr>searchQuery := [], searchResults := [], isSearching := False\<rparr>\<rparr>)"
  by (simp add: flush_watch_def watch_searchQuery_def)

lemma input_nonempty:
  "q \<noteq> [] \<Longrightarrow> q \<noteq> searchQuery (app w) \<Longrightarrow>
   step (Input q) w = debounce (\<lambda>_. search) 300 () (w\<lparr>app := (app w)\<lparr>searchQuery := q\<rparr>\<rparr>)"
  by (auto simp: flush_watch_def watch_searchQuery_def debouncedSearch_def)

lemma expire_tidy_short:
  assumes "tidy (\<lambda>_. search) w" "length (searchQuery (app w)) < 3" "searchResults (app w) = []"
  shows "requests (app (expire w)) = requests (app w) \<and> searchResults (app (expire w)) = []
         \<and> searchQuery (app (expire w)) = searchQuery (app w)"
  using assms(1)
proof (cases rule: tidy_cases)
  case none
  then show ?thesis using assms by (simp add: expire_none)
next
  case (one t)
  then show ?thesis using assms by (simp add: expire_one search_short)
qed

lemma idle_short:
  "tidy (\<lambda>_. search) w \<Longrightarrow> length (searchQuery (app w)) < 3 \<Longrightarrow> searchResults (app w) = [] \<Longrightarrow>
   requests (app (idle ks w)) = requests (app w) \<and> searchResults (app (idle ks w)) = []"
proof (induction ks arbitrary: w)
  case Nil
  then show ?case by simp
next
  case (Cons k ks)
  show ?case
  proof (cases k)
    case (Wait d)
    have "tidy (\<lambda>_. search) (elapse d w)" using Cons.prems(1) by (rule tidy_elapse)
    from Cons.IH [OF this] Cons.prems Wait show ?thesis by (simp add: elapse_def)
  next
    case Expire
    have t: "tidy (\<lambda>_. search) (expire w)" using Cons.prems(1) by (rule tidy_expire)
    from expire_tidy_short [OF Cons.prems] Cons.IH [OF t] Cons.prems Expire
    show ?thesis by simp
  qed
qed

lemma run_as_idle: "run [Input q, Elapse d, Timer] w = idle [Wait d, Expire] (step (Input q) w)"
  by simp

lemma input_short_settles:
  assumes "length q < 3" "q \<noteq> searchQuery (app w)" "tidy (\<lambda>_. search) w" "300 \<le> d"
  shows "requests (app (idle (Wait d # Expire # ks) (step (Input q) w))) = requests (app w)
       \<and> searchResults (app (idle (Wait d # Expire # ks) (step (Input q) w))) = []"
proof (cases "q = []")
  case True
  let ?w1 = "step (Input []) w"
  have a: "tidy (\<lambda>_. search) ?w1" using assms(3) by (rule tidy_step)
  have b: "length (searchQuery (app ?w1)) < 3" "searchResults (app ?w1) = []"
    "requests (app ?w1) = requests (app w)"
    using assms(2) True by (simp_all add: input_empty del: step.simps(1))
  from idle_short [OF a b(1) b(2), of "Wait d # Expire # ks"] b(3) True show ?thesis
    by (simp del: step.simps(1) idle.simps)
next
  case False
  let ?w0 = "w\<lparr>app := (app w)\<lparr>searchQuery := q\<rparr>\<rparr>"
  let ?w1 = "debounce (\<lambda>_. search) 300 () ?w0"
  let ?t = "\<lparr>handle = nextHandle ?w0, due = now ?w0 + 300, callee = \<lambda>_. search, args = ()\<rparr>"
  have s: "step (Input q) w = ?w1" using False assms(2) by (rule input_nonempty)
  have t0: "tidy (\<lambda>_. search) ?w0" using assms(3) by simp
  have tm: "timers ?w1 = [?t]" using t0 search_delay by (rule debounce_timers)
  have t1: "tidy (\<lambda>_. search) ?w1" using t0 by (rule tidy_debounce)
  let ?w2 = "expire (elapse d ?w1)"
  have e: "?w2 = (elapse d ?w1)\<lparr>timers := [], calls := calls (elapse d ?w1) @ [()],
                      app := search (app ?w1)\<rparr>"
    using tm assms(4) by (subst expire_one [of _ ?t]) (simp_all add: elapse_def debounce_frame)
  have t2: "tidy (\<lambda>_. search) ?w2" using t1 by (intro tidy_expire tidy_elapse)
  have q: "searchQuery (app ?w1) = q" "requests (app ?w1) = requests (app w)"
    by (simp_all add: debounce_frame)
  have b: "length (searchQuery (app ?w2)) < 3" "searchResults (app ?w2) = []"
    "requests (app ?w2) = requests (app w)"
    using assms(1) q by (simp_all add: e search_short)
  from idle_short [OF t2 b(1) b(2), of ks] b(3) show ?thesis
    by (simp add: s del: step.simps(1))
qed

lemma run_append: "run (es @ fs) w = run fs (run es w)"
  by (induction es arbitrary: w) simp_all

lemma fire_after_input:
  assumes "tidy (\<lambda>_. search) v" "q \<noteq> []" "q \<noteq> searchQuery (app v)" "300 \<le> d"
  shows "timers (run [Input q, Elapse d, Timer] v) = []
       \<and> calls (run [Input q, Elapse d, Timer] v) = calls v @ [()]
       \<and> app (run [Input q, Elapse d, Timer] v) = search ((app v)\<lparr>searchQuery := q\<rparr>)"
proof -
  let ?v0 = "v\<lparr>app := (app v)\<lparr>searchQuery := q\<rparr>\<rparr>"
  let ?v1 = "debounce (\<lambda>_. search) 300 () ?v0"
  let ?t = "\<lparr>handle = nextHandle ?v0, due = now ?v0 + 300, callee = \<lambda>_. search, args = ()\<rparr>"
  have s: "step (Input q) v = ?v1" using assms(2,3) by (rule input_nonempty)
  have t0: "tidy (\<lambda>_. search) ?v0" using assms(1) by simp
  have tm: "timers (elapse d ?v1) = [?t]" using debounce_timers [OF t0 search_delay, of "()"]
    by (simp add: elapse_def)
  have e: "expire (elapse d ?v1) = (elapse d ?v1)\<lparr>timers := [], calls := calls v @ [()],
                      app := search (app ?v0)\<rparr>"
    using assms(4) by (subst expire_one [OF tm]) (simp add: elapse_def debounce_frame)
  show ?thesis by (simp add: s e del: step.simps(1))
qed

lemma wait_after_input:
  assumes "tidy (\<lambda>_. search) v" "q \<noteq> []" "q \<noteq> searchQuery (app v)" "d < 300"
  shows "tidy (\<lambda>_. search) (run [Input q, Elapse d, Timer] v)
       \<and> calls (run [Input q, Elapse d, Timer] v) = calls v
       \<and> app (run [Input q, Elapse d, Timer] v) = (app v)\<lparr>searchQuery := q\<rparr>"
proof -
  let ?v0 = "v\<lparr>app := (app v)\<lparr>searchQuery := q\<rparr>\<rparr>"
  have s: "step (Input q) v = debounce (\<lambda>_. search) 300 () ?v0"
    using assms(2,3) by (rule input_nonempty)
  have t0: "tidy (\<lambda>_. search) ?v0" using assms(1) by simp
  have w: "waited [Wait d, Expire] < 300" using assms(4) by simp
  from superseded_dropped [OF t0 w search_delay, of "()"] show ?thesis
    by (simp add: s del: step.simps(1))
qed

lemma rapid_typing:
  assumes "tidy (\<lambda>_. search) v" "q1 \<noteq> []" "q1 \<noteq> searchQuery (app v)" "q2 \<noteq> []" "q2 \<noteq> q1"
    "d1 < 300" "300 \<le> d2"
  shows "calls (run [Input q1, Elapse d1, Timer, Input q2, Elapse d2, Timer, Timer] v) = calls v @ [()]
       \<and> app (run [Input q1, Elapse d1, Timer, Input q2, Elapse d2, Timer, Timer] v)
           = search ((app v)\<lparr>searchQuery := q2\<rparr>)"
proof -
  let ?v1 = "run [Input q1, Elapse d1, Timer] v"
  let ?v2 = "run [Input q2, Elapse d2, Timer] ?v1"
  from wait_after_input [OF assms(1,2,3,6)]
  have a: "tidy (\<lambda>_. search) ?v1" "calls ?v1 = calls v" "app ?v1 = (app v)\<lparr>searchQuery := q1\<rparr>"
    by simp_all
  have n: "q2 \<noteq> searchQuery (app ?v1)" using assms(5) by (simp add: a(3) del: run.simps)
  from fire_after_input [OF a(1) assms(4) n assms(7)]
  have b: "timers ?v2 = []" "calls ?v2 = calls v @ [()]"
    "app ?v2 = search ((app v)\<lparr>searchQuery := q2\<rparr>)"
    by (simp_all add: a del: run.simps)
  have r: "run [Input q1, Elapse d1, Timer, Input q2, Elapse d2, Timer, Timer] v = expire ?v2"
    using run_append [of "[Input q1, Elapse d1, Timer]" "[Input q2, Elapse d2, Timer, Timer]" v]
      run_append [of "[Input q2, Elapse d2, Timer]" "[Timer]" ?v1]
    by (simp del: step.simps(1))
  show ?thesis unfolding r using b by (simp add: expire_none del: run.simps)
qed

section \<open>The example worlds, evaluated\<close>

lemmas eval_defs = mounted_def boot_def onMounted_def initial_def flush_watch_def
      watch_searchQuery_def debouncedSearch_def debounce_def clearTimeout_def setTimeout_def
      timer_delay_def
      elapse_def expire_def search_def search_settled_def lit_def showPreview_def

lemma searching_eq:
  "searching = \<lparr>timeoutId = Some 1, now = 300, nextHandle = 2, timers = [], calls = [()],
     app = \<lparr>card = JNull, searchQuery = lit ''fur'', searchResults = [], selectedCard = JNull,
       previewCard = JNull, isSearching = True, searchError = None,
       requests = [default_url, search_url (lit ''fur'')]\<rparr>\<rparr>"
  by (simp add: searching_def eval_defs)

lemma tidy_searching: "tidy (\<lambda>_. search) searching"
  unfolding searching_def by (intro tidy_run tidy_mounted)

lemma failed_search_eq:
  "failed_search = \<lparr>timeoutId = Some 1, now = 300, nextHandle = 2, timers = [], calls = [()],
     app = \<lparr>card = JNull, searchQuery = lit ''fur'', searchResults = [], selectedCard = JNull,
       previewCard = JNull, isSearching = False, searchError = Some search_failed,
       requests = [default_url, search_url (lit ''fur'')]\<rparr>\<rparr>"
  by (simp add: failed_search_def mounted_def boot_def onMounted_def initial_def flush_watch_def
      watch_searchQuery_def debouncedSearch_def debounce_def clearTimeout_def setTimeout_def
      timer_delay_def
      elapse_def expire_def search_def search_settled_def lit_def)

lemma listed_eq:
  "listed = \<lparr>timeoutId = Some 1, now = 300, nextHandle = 2, timers = [], calls = [()],
     app = \<lparr>card = JNull, searchQuery = lit ''fur'', searchResults = [furret], selectedCard = JNull,
       previewCard = JNull, isSearching = False, searchError = None,
       requests = [default_url, search_url (lit ''fur'')]\<rparr>\<rparr>"
  by (simp add: listed_def eval_defs)

lemma hovering_eq:
  "hovering = \<lparr>timeoutId = Some 2, now = 300, nextHandle = 3,
     timers = [\<lparr>handle = 2, due = 600, callee = \<lambda>_. search, args = ()\<rparr>], calls = [()],
     app = \<lparr>card = JNull, searchQuery = lit ''furr'', searchResults = [furret], selectedCard = JNull,
       previewCard = furret, isSearching = False, searchError = None,
       requests = [default_url, search_url (lit ''fur'')]\<rparr>\<rparr>"
  by (simp add: hovering_def listed_eq eval_defs)

lemma tidy_listed: "tidy (\<lambda>_. search) listed"
  unfolding listed_def by (intro tidy_run tidy_mounted)

lemma tidy_hovering: "tidy (\<lambda>_. search) hovering"
  unfolding hovering_def by (intro tidy_run tidy_listed)

lemma tidy_loaded: "tidy (\<lambda>_. search) loaded"
  unfolding loaded_def by (intro tidy_step tidy_mounted)

lemma session_selected: "selectedCard (app (run session loaded)) = eevee"
  by (simp add: session_def loaded_def eval_defs onMounted_settled_def selectCard_def
     selectCard_settled_def card_url_def eevee_def template_text_def)

section \<open>Short queries\<close>

text \<open>
  C1. A change of the query to a text of fewer than three code units (the empty text
  included) issues no request: not when the watcher runs, not when the debounce timer
  runs \<open>search\<close> 300 ms or more later, and not afterwards while only time passes; once
  the timer has had its turn the result list is empty. The body of \<open>search\<close> on a
  short query issues no request and empties the list.
\<close>

theorem short_query_no_request:
  assumes "length q < 3" "q \<noteq> searchQuery (app w)" "tidy (\<lambda>_. search) w" "300 \<le> d"
  shows "requests (app (step (Input q) w)) = requests (app w)
       \<and> requests (app (run [Input q, Elapse d, Timer] w)) = requests (app w)
       \<and> searchResults (app (run [Input q, Elapse d, Timer] w)) = []
       \<and> requests (app (idle ks (run [Input q, Elapse d, Timer] w))) = requests (app w)
       \<and> searchResults (app (idle ks (run [Input q, Elapse d, Timer] w))) = []
       \<and> (length (searchQuery s) < 3 \<longrightarrow>
            requests (search s) = requests s \<and> searchResults (search s) = [])"
proof -
  have 1: "requests (app (step (Input q) w)) = requests (app w)"
    by (simp add: flush_watch_def watch_searchQuery_def debouncedSearch_def debounce_frame)
  have 2: "idle ks (idle [Wait d, Expire] x) = idle (Wait d # Expire # ks) x"
    for x :: "(unit, state) world" by simp
  from input_short_settles [OF assms, of "[]"] input_short_settles [OF assms, of ks]
  show ?thesis
    unfolding run_as_idle 2 using 1 by (simp add: search_short del: step.simps idle.simps)
qed

theorem short_query_no_request_witness:
  "length (lit ''fu'') < 3 \<and> lit ''fu'' \<noteq> searchQuery (app listed) \<and> tidy (\<lambda>_. search) listed
   \<and> searchResults (app listed) = [furret]
   \<and> requests (app (run [Input (lit ''fu''), Elapse 300, Timer] listed)) = requests (app listed)
   \<and> searchResults (app (run [Input (lit ''fu''), Elapse 300, Timer] listed)) = []
   \<and> requests (app (run [Input [], Elapse 300, Timer] hovering)) = requests (app hovering)
   \<and> searchResults (app (run [Input [], Elapse 300, Timer] hovering)) = []"
proof -
  have h: "length (lit ''fu'') < 3" "lit ''fu'' \<noteq> searchQuery (app listed)" "(300::nat) \<le> 300"
    "length ([]::jstring) < 3" "[] \<noteq> searchQuery (app hovering)"
    by (simp_all add: listed_eq hovering_eq lit_def)
  from short_query_no_request [OF h(1) h(2) tidy_listed h(3), of "[]" initial]
    short_query_no_request [OF h(4) h(5) tidy_hovering h(3), of "[]" initial]
    h tidy_listed
  show ?thesis by (simp add: listed_eq del: run.simps step.simps)
qed

section \<open>Selecting a result\<close>

text \<open>
  C2 as stated does not hold: the selection can end empty. With the result \<open>Furret\<close>
  listed, clicking it issues the detail request; when the response is a 2xx whose body is
  \<open>null\<close>, that body is stored and the selected card is null.
\<close>

theorem selectCard_null_body_counterexample:
  "searchResults (app listed) = [furret]
   \<and> card_url furret = Some (lit ''https://api.tcgdex.net/v2/en/cards/swsh3-136'')
   \<and> selectedCard (app (selectCard_run furret (Response True (Some JNull)) listed)) = JNull"
  by (simp add: listed_eq card_url_furret selectCard_run_def click_app selectCard_def
      selectCard_settled_def del: step.simps(4))

text \<open>
  C2, as the code has it. Selecting a result empties the query, the result list and the
  preview and issues the detail request for the result's \<open>id\<close> (none when building the
  URL throws). It sets no error message, and it ends with the selected card set: to the
  body of the detail response, whatever that body is, when the request succeeds, and to
  the clicked result when the request fails or could not be made.
\<close>

theorem selectCard_selects:
  "searchQuery (app (step (ClickResult result) w)) = []
   \<and> searchResults (app (step (ClickResult result) w)) = []
   \<and> previewCard (app (step (ClickResult result) w)) = JNull
   \<and> requests (app (step (ClickResult result) w)) =
        (case card_url result of
           None \<Rightarrow> requests (app w)
         | Some u \<Rightarrow> requests (app w) @ [u])
   \<and> (\<forall>t. property result (lit ''id'') = Some (Some (JStr t)) \<longrightarrow>
         requests (app (step (ClickResult result) w)) =
           requests (app w) @ [lit ''https://api.tcgdex.net/v2/en/cards/'' @ t])
   \<and> searchQuery (app (selectCard_run result r w)) = []
   \<and> searchResults (app (selectCard_run result r w)) = []
   \<and> previewCard (app (selectCard_run result r w)) = JNull
   \<and> searchError (app (selectCard_run result r w)) = searchError (app w)
   \<and> requests (app (selectCard_run result r w)) = requests (app (step (ClickResult result) w))
   \<and> selectedCard (app (selectCard_run result r w)) =
        (case card_url result of
           None \<Rightarrow> result
         | Some u \<Rightarrow> (case r of Response True (Some fullCardData) \<Rightarrow> fullCardData | _ \<Rightarrow> result))"
proof -
  have 1: "requests (app (step (ClickResult result) w)) =
        (case card_url result of
           None \<Rightarrow> requests (app w)
         | Some u \<Rightarrow> requests (app w) @ [u])"
    by (rule click_requests)
  have 2: "requests (app (step (ClickResult result) w)) =
           requests (app w) @ [lit ''https://api.tcgdex.net/v2/en/cards/'' @ t]"
    if "property result (lit ''id'') = Some (Some (JStr t))" for t
    unfolding 1 using that by (simp add: card_url_def template_text_def)
  have 3: "searchQuery (app (step (ClickResult result) w)) = []
   \<and> searchResults (app (step (ClickResult result) w)) = []
   \<and> previewCard (app (step (ClickResult result) w)) = JNull
   \<and> searchQuery (app (selectCard_run result r w)) = []
   \<and> searchResults (app (selectCard_run result r w)) = []
   \<and> previewCard (app (selectCard_run result r w)) = JNull
   \<and> searchError (app (selectCard_run result r w)) = searchError (app w)
   \<and> requests (app (selectCard_run result r w)) = requests (app (step (ClickResult result) w))
   \<and> selectedCard (app (selectCard_run result r w)) =
        (case card_url result of
           None \<Rightarrow> result
         | Some u \<Rightarrow> (case r of Response True (Some fullCardData) \<Rightarrow> fullCardData | _ \<Rightarrow> result))"
    by (auto simp: selectCard_run_def click_app selectCard_def Let_def selectCard_settled_def
        simp del: step.simps(4) split: option.splits fetch_result.splits bool.splits)
  from 1 2 3 show ?thesis by blast
qed

theorem selectCard_selects_witness:
  "searchQuery (app hovering) = lit ''furr'' \<and> searchResults (app hovering) = [furret]
   \<and> previewCard (app hovering) = furret
   \<and> property furret (lit ''id'') = Some (Some (JStr (lit ''swsh3-136'')))
   \<and> searchQuery (app (step (ClickResult furret) hovering)) = []
   \<and> searchResults (app (step (ClickResult furret) hovering)) = []
   \<and> previewCard (app (step (ClickResult furret) hovering)) = JNull
   \<and> requests (app (step (ClickResult furret) hovering)) =
        requests (app hovering) @ [lit ''https://api.tcgdex.net/v2/en/cards/'' @ lit ''swsh3-136'']
   \<and> selectedCard (app (selectCard_run furret (Response True (Some furret_full)) hovering))
        = furret_full
   \<and> selectedCard (app (selectCard_run furret (Response False None) hovering)) = furret
   \<and> selectedCard (app (selectCard_run furret Rejected hovering)) = furret
   \<and> searchError (app (selectCard_run furret Rejected hovering)) = None"
proof -
  have p: "property furret (lit ''id'') = Some (Some (JStr (lit ''swsh3-136'')))"
    by (simp add: furret_def lit_def)
  have u: "card_url furret = Some (lit ''https://api.tcgdex.net/v2/en/cards/'' @ lit ''swsh3-136'')"
    by (simp add: card_url_furret lit_def)
  note T1 = selectCard_selects [where result = furret and w = hovering
      and r = "Response True (Some furret_full)"]
  note T2 = selectCard_selects [where result = furret and w = hovering
      and r = "Response False None"]
  note T3 = selectCard_selects [where result = furret and w = hovering and r = Rejected]
  note R = T1 [THEN conjunct2, THEN conjunct2, THEN conjunct2, THEN conjunct2, THEN conjunct1,
      THEN spec, THEN mp, OF p]
  have h: "searchQuery (app hovering) = lit ''furr''" "searchResults (app hovering) = [furret]"
    "previewCard (app hovering) = furret" "searchError (app hovering) = None"
    by (simp_all add: hovering_eq)
  have s1: "selectedCard (app (selectCard_run furret (Response True (Some furret_full)) hovering))
        = furret_full"
    using T1 by (simp add: u del: step.simps)
  have s2: "selectedCard (app (selectCard_run furret (Response False None) hovering)) = furret"
    using T2 by (simp add: u del: step.simps)
  have s3: "selectedCard (app (selectCard_run furret Rejected hovering)) = furret
     \<and> searchError (app (selectCard_run furret Rejected hovering)) = None"
    using T3 h(4) by (simp add: u del: step.simps)
  from T1 have e: "searchQuery (app (step (ClickResult furret) hovering)) = []
   \<and> searchResults (app (step (ClickResult furret) hovering)) = []
   \<and> previewCard (app (step (ClickResult furret) hovering)) = JNull"
    by blast
  from p h(1,2,3) e R s1 s2 s3 show ?thesis by blast
qed

section \<open>Emptying the query\<close>

text \<open>
  C3 as stated does not hold. The watcher on an emptied query writes the result list and
  the loading flag only: after a search for \<open>fur\<close> has listed a result, with the
  pointer on that result and the query edited again so that a debounce timer is pending,
  emptying the query leaves \<open>previewCard\<close> set and the timer in the table.
\<close>

theorem empty_query_counterexample:
  "searchQuery (app hovering) \<noteq> []
   \<and> searchQuery (app (step (Input []) hovering)) = []
   \<and> previewCard (app (step (Input []) hovering)) \<noteq> JNull
   \<and> timers (step (Input []) hovering) \<noteq> []"
  by (simp add: hovering_eq input_empty lit_def furret_def del: step.simps(1))

text \<open>
  C3, as the code has it. When the query becomes empty the result list is emptied and the
  loading flag cleared at once, whatever timer is pending, and the preview image is no
  longer shown. The pending timer is not cancelled (the wrapper has no way to cancel):
  it stays in the table, and when it runs later, the query still empty, it issues no
  request and leaves the list empty.
\<close>

theorem empty_query_clears_results:
  assumes "searchQuery (app w) \<noteq> []"
  shows "searchQuery (app (step (Input []) w)) = []
       \<and> searchResults (app (step (Input []) w)) = []
       \<and> isSearching (app (step (Input []) w)) = False
       \<and> \<not> previewShown (app (step (Input []) w))
       \<and> timers (step (Input []) w) = timers w
       \<and> timeoutId (step (Input []) w) = timeoutId w
       \<and> requests (app (step (Input []) w)) = requests (app w)
       \<and> (tidy (\<lambda>_. search) w \<longrightarrow>
            requests (app (idle ks (step (Input []) w))) = requests (app w)
            \<and> searchResults (app (idle ks (step (Input []) w))) = [])"
proof -
  let ?w1 = "step (Input []) w"
  have e: "?w1 = w\<lparr>app := (app w)\<lparr>searchQuery := [], searchResults := [], isSearching := False\<rparr>\<rparr>"
    using assms by (simp add: input_empty del: step.simps(1))
  have "requests (app (idle ks ?w1)) = requests (app w) \<and> searchResults (app (idle ks ?w1)) = []"
    if t: "tidy (\<lambda>_. search) w"
  proof -
    have "tidy (\<lambda>_. search) ?w1" using t by (rule tidy_step)
    from idle_short [OF this, of ks] show ?thesis by (simp add: e del: step.simps(1))
  qed
  then show ?thesis by (simp add: e previewShown_def del: step.simps(1))
qed

theorem empty_query_clears_results_witness:
  "searchQuery (app hovering) \<noteq> [] \<and> tidy (\<lambda>_. search) hovering
   \<and> searchResults (app hovering) = [furret]
   \<and> searchResults (app (step (Input []) hovering)) = []
   \<and> \<not> previewShown (app (step (Input []) hovering))
   \<and> timers (step (Input []) hovering) = timers hovering
   \<and> requests (app (idle [Wait 300, Expire] (step (Input []) hovering))) = requests (app hovering)
   \<and> searchResults (app (idle [Wait 300, Expire] (step (Input []) hovering))) = []"
proof -
  have h: "searchQuery (app hovering) \<noteq> []" by (simp add: hovering_eq lit_def)
  from empty_query_clears_results [OF h, of "[Wait 300, Expire]"] h tidy_hovering
  show ?thesis by (simp add: hovering_eq del: step.simps idle.simps)
qed

section \<open>The end of a search request\<close>

text \<open>
  C4 as stated does not hold: the error is not always cleared at a successful response.
  With the searches for \<open>fur\<close> and for \<open>furr\<close> both under way, the first request
  fails and sets the message; the second then succeeds and lists its result, and the
  message is still set.
\<close>

theorem search_overlap_counterexample:
  "searchResults (app (run overlapping mounted)) = [furret]
   \<and> isSearching (app (run overlapping mounted)) = False
   \<and> searchError (app (run overlapping mounted))
        = Some (lit ''Failed to search cards. Please try again.'')"
  by (simp add: overlapping_def eval_defs search_failed_def)

text \<open>
  C4, as the code has it. An invocation of \<open>search\<close> with a query of three or more
  code units clears the error and issues the request for that query. When the response
  is a 2xx with a body \<open>data\<close>, the result list is \<open>data\<close> when \<open>data\<close> is an
  array and empty otherwise, and the loading flag is cleared, in whatever state \<open>s'\<close>
  the response arrives. The successful response does not write the error: it is null
  then when nothing happened between the call and the response, and, whatever else
  happened in between, unless a search request has failed since the call.
\<close>

theorem search_success:
  assumes "2 < length (searchQuery s)"
  shows "requests (search s) = requests s @ [search_url (searchQuery s)]
     \<and> searchError (search s) = None
     \<and> searchResults (search_settled (Response True (Some data)) (search s))
         = (case data of JArr xs \<Rightarrow> xs | _ \<Rightarrow> [])
     \<and> searchError (search_settled (Response True (Some data)) (search s)) = None
     \<and> isSearching (search_settled (Response True (Some data)) (search s)) = False
     \<and> searchResults (search_settled (Response True (Some data)) s')
         = (case data of JArr xs \<Rightarrow> xs | _ \<Rightarrow> [])
     \<and> isSearching (search_settled (Response True (Some data)) s') = False
     \<and> searchError (search_settled (Response True (Some data)) s') = searchError s'
     \<and> (tidy (\<lambda>_. search) w \<and> searchError (app w) = None
          \<and> (\<forall>r. SearchSettled r \<in> set es \<longrightarrow> (\<exists>d. r = Response True (Some d))) \<longrightarrow>
          searchError (app (step (SearchSettled (Response True (Some data))) (run es w))) = None)"
proof -
  have "searchError (app (step (SearchSettled (Response True (Some data))) (run es w))) = None"
    if "tidy (\<lambda>_. search) w" "searchError (app w) = None"
      "\<forall>r. SearchSettled r \<in> set es \<longrightarrow> (\<exists>d. r = Response True (Some d))"
    using run_error_none [OF that] by (simp add: search_settled_def)
  then show ?thesis using assms by (simp add: search_long search_settled_def)
qed

theorem search_success_witness:
  "2 < length (searchQuery (initial\<lparr>searchQuery := lit ''fur''\<rparr>))
   \<and> searchResults (search_settled (Response True (Some (JArr [furret])))
        (search (initial\<lparr>searchQuery := lit ''fur''\<rparr>))) = [furret]
   \<and> searchError (search_settled (Response True (Some (JArr [furret])))
        (search (initial\<lparr>searchQuery := lit ''fur''\<rparr>))) = None
   \<and> isSearching (search_settled (Response True (Some (JArr [furret])))
        (search (initial\<lparr>searchQuery := lit ''fur''\<rparr>))) = False
   \<and> tidy (\<lambda>_. search) searching \<and> searchError (app searching) = None
   \<and> searchError (app (step (SearchSettled (Response True (Some (JArr [furret]))))
        (run [Input (lit ''furr''), Elapse 100, Timer] searching))) = None"
proof -
  have h: "2 < length (searchQuery (initial\<lparr>searchQuery := lit ''fur''\<rparr>))"
    by (simp add: lit_def)
  have e: "searchError (app searching) = None" by (simp add: searching_eq)
  have n: "\<forall>r. SearchSettled r \<in> set [Input (lit ''furr''), Elapse 100, Timer]
             \<longrightarrow> (\<exists>d. r = Response True (Some d))"
    by simp
  note T = search_success [OF h, where data = "JArr [furret]" and s' = initial and w = searching
      and es = "[Input (lit ''furr''), Elapse 100, Timer]"]
  have P: "tidy (\<lambda>_. search) searching \<and> searchError (app searching) = None
          \<and> (\<forall>r. SearchSettled r \<in> set [Input (lit ''furr''), Elapse 100, Timer]
             \<longrightarrow> (\<exists>d. r = Response True (Some d)))"
    using tidy_searching e n by blast
  note L = T [THEN conjunct2, THEN conjunct2, THEN conjunct2, THEN conjunct2, THEN conjunct2,
      THEN conjunct2, THEN conjunct2, THEN conjunct2, THEN mp, OF P]
  from T have A: "searchResults (search_settled (Response True (Some (JArr [furret])))
        (search (initial\<lparr>searchQuery := lit ''fur''\<rparr>))) = [furret]
   \<and> searchError (search_settled (Response True (Some (JArr [furret])))
        (search (initial\<lparr>searchQuery := lit ''fur''\<rparr>))) = None
   \<and> isSearching (search_settled (Response True (Some (JArr [furret])))
        (search (initial\<lparr>searchQuery := lit ''fur''\<rparr>))) = False"
    by simp
  show ?thesis using h A tidy_searching e L by blast
qed

text \<open>
  C5. When a search request fails (the transport fails, the status is not 2xx, or the
  body does not parse), the fixed message is set, the result list is emptied and the
  loading flag is cleared, whatever the state was when the request ended.
\<close>

theorem search_failure:
  assumes "\<forall>data. r \<noteq> Response True (Some data)"
  shows "searchError (search_settled r s) = Some (lit ''Failed to search cards. Please try again.'')
         \<and> searchResults (search_settled r s) = []
         \<and> isSearching (search_settled r s) = False"
  using assms
  by (auto simp: search_settled_def search_failed_def
      split: fetch_result.splits option.splits bool.splits)

theorem search_failure_witness:
  "(\<forall>data. Response False (Some (JArr [furret])) \<noteq> Response True (Some data))
   \<and> searchError (search_settled (Response False (Some (JArr [furret]))) (search (initial\<lparr>searchQuery := lit ''fur''\<rparr>)))
       = Some (lit ''Failed to search cards. Please try again.'')
   \<and> searchResults (search_settled Rejected (initial\<lparr>searchResults := [furret]\<rparr>)) = []
   \<and> isSearching (search_settled (Response True None) (initial\<lparr>isSearching := True\<rparr>)) = False"
  using search_failure [of "Response False (Some (JArr [furret]))" "search (initial\<lparr>searchQuery := lit ''fur''\<rparr>)"]
    search_failure [of Rejected "initial\<lparr>searchResults := [furret]\<rparr>"]
    search_failure [of "Response True None" "initial\<lparr>isSearching := True\<rparr>"]
  by simp

section \<open>Debouncing\<close>

text \<open>
  C6 as stated, for every delay, does not hold. A delay of 2147483648 ms does not fit the
  host's 32-bit timer: the callback runs within 60 ms of the invocation, and it has run
  although a second invocation supersedes the first well before the delay has passed.
\<close>

theorem debounce_large_delay_counterexample:
  "(60::nat) < 2147483648
   \<and> calls (idle [Wait 60, Expire]
        (debounce record_call 2147483648 7 (boot ([]::nat list)))) = [7]
   \<and> calls (debounce record_call 2147483648 8
        (idle [Wait 60, Expire] (debounce record_call 2147483648 7 (boot ([]::nat list))))) = [7]"
  by (simp add: debounce_def clearTimeout_def setTimeout_def timer_delay_def boot_def elapse_def
      expire_def record_call_def)

text \<open>
  C6, as the code has it. For every callback \<open>fn\<close> and every \<open>delay\<close> of at most
  2147483647 ms: an invocation of the wrapper leaves exactly one timer, its own, due
  \<open>delay\<close> after it, and runs nothing itself. After a burst of invocations, each
  followed by less than \<open>delay\<close> of waiting, none of the earlier invocations has run
  \<open>fn\<close>; in the quiet period after the last one \<open>fn\<close> runs at most once, with the
  arguments of that last invocation and not before \<open>delay\<close> has passed, and it does
  run once the event loop takes the timer after \<open>delay\<close>. For the search box the
  delay is 300 ms: of two edits less than 300 ms apart only the second leads to a run of
  \<open>search\<close>, which reads the query as it is then and requests it when it has three or
  more code units.
\<close>

theorem debounce_latest_call_wins:
  assumes "tidy fn w" and "list_all (\<lambda>(b, ks). waited ks < delay) bs"
    and "delay \<le> 2147483647"
  shows
    "(let w0 = invocations fn delay bs w; w1 = debounce fn delay a w0 in
        timers w1 = [\<lparr>handle = nextHandle w0, due = now w0 + delay, callee = fn, args = a\<rparr>]
      \<and> calls w1 = calls w \<and> app w1 = app w
      \<and> ((calls (idle ks w1) = calls w \<and> app (idle ks w1) = app w)
          \<or> (delay \<le> waited ks \<and> calls (idle ks w1) = calls w @ [a]
              \<and> app (idle ks w1) = fn a (app w)))
      \<and> (delay \<le> d \<longrightarrow>
            calls (idle (Wait d # Expire # ks) w1) = calls w @ [a]
            \<and> app (idle (Wait d # Expire # ks) w1) = fn a (app w)))
     \<and> (tidy (\<lambda>_. search) v \<and> q1 \<noteq> [] \<and> q1 \<noteq> searchQuery (app v) \<longrightarrow>
          timers (step (Input q1) v) =
            [\<lparr>handle = nextHandle v, due = now v + 300, callee = \<lambda>_. search, args = ()\<rparr>]
          \<and> calls (step (Input q1) v) = calls v
          \<and> requests (app (step (Input q1) v)) = requests (app v))
     \<and> (tidy (\<lambda>_. search) v \<and> q1 \<noteq> [] \<and> q1 \<noteq> searchQuery (app v) \<and> q2 \<noteq> [] \<and> q2 \<noteq> q1
          \<and> d1 < 300 \<and> 300 \<le> d2 \<longrightarrow>
          calls (run [Input q1, Elapse d1, Timer, Input q2, Elapse d2, Timer, Timer] v) = calls v @ [()]
          \<and> app (run [Input q1, Elapse d1, Timer, Input q2, Elapse d2, Timer, Timer] v)
               = search ((app v)\<lparr>searchQuery := q2\<rparr>)
          \<and> requests (app (run [Input q1, Elapse d1, Timer, Input q2, Elapse d2, Timer, Timer] v))
               = requests (app v) @ (if 2 < length q2 then [search_url q2] else []))"
proof -
  let ?w0 = "invocations fn delay bs w"
  let ?w1 = "debounce fn delay a ?w0"
  from invocations_dropped [OF assms]
  have i: "calls ?w0 = calls w" "app ?w0 = app w" "tidy fn ?w0" by simp_all
  have 1: "timers ?w1 = [\<lparr>handle = nextHandle ?w0, due = now ?w0 + delay, callee = fn, args = a\<rparr>]"
    using i(3) assms(3) by (rule debounce_timers)
  have 2: "calls ?w1 = calls w" "app ?w1 = app w" by (simp_all add: debounce_frame i)
  have 3: "(calls (idle ks ?w1) = calls w \<and> app (idle ks ?w1) = app w)
          \<or> (delay \<le> waited ks \<and> calls (idle ks ?w1) = calls w @ [a]
              \<and> app (idle ks ?w1) = fn a (app w))"
    using debounce_idle [OF i(3) assms(3), of ks a] by (auto simp: i)
  have 4: "calls (idle (Wait d # Expire # ks) ?w1) = calls w @ [a]
            \<and> app (idle (Wait d # Expire # ks) ?w1) = fn a (app w)" if "delay \<le> d"
    using debounce_fires_once [OF i(3) that assms(3), of ks a] by (simp add: i)
  have 5: "timers (step (Input q1) v) =
            [\<lparr>handle = nextHandle v, due = now v + 300, callee = \<lambda>_. search, args = ()\<rparr>]
          \<and> calls (step (Input q1) v) = calls v
          \<and> requests (app (step (Input q1) v)) = requests (app v)"
    if "tidy (\<lambda>_. search) v" "q1 \<noteq> []" "q1 \<noteq> searchQuery (app v)"
  proof -
    let ?v0 = "v\<lparr>app := (app v)\<lparr>searchQuery := q1\<rparr>\<rparr>"
    have t0: "tidy (\<lambda>_. search) ?v0" using that(1) by simp
    show ?thesis
      unfolding input_nonempty [OF that(2,3)]
      using debounce_timers [OF t0 search_delay, of "()"] by (simp add: debounce_frame)
  qed
  have 6: "calls (run [Input q1, Elapse d1, Timer, Input q2, Elapse d2, Timer, Timer] v) = calls v @ [()]
          \<and> app (run [Input q1, Elapse d1, Timer, Input q2, Elapse d2, Timer, Timer] v)
               = search ((app v)\<lparr>searchQuery := q2\<rparr>)
          \<and> requests (app (run [Input q1, Elapse d1, Timer, Input q2, Elapse d2, Timer, Timer] v))
               = requests (app v) @ (if 2 < length q2 then [search_url q2] else [])"
    if "tidy (\<lambda>_. search) v" "q1 \<noteq> []" "q1 \<noteq> searchQuery (app v)" "q2 \<noteq> []" "q2 \<noteq> q1"
      "d1 < 300" "300 \<le> d2"
    using rapid_typing [OF that] by (simp add: search_def del: run.simps)
  show ?thesis
    unfolding Let_def using 1 2 3 4 5 6 by blast
qed

theorem debounce_latest_call_wins_witness:
  "tidy record_call (boot [])
   \<and> list_all (\<lambda>(b, ks). waited ks < 300) [(1, [Wait 100, Expire]), (2, [Wait 299, Expire])]
   \<and> (300::nat) \<le> 2147483647
   \<and> app (idle [Wait 300, Expire, Wait 1000, Expire]
        (debounce record_call 300 3
          (invocations record_call 300 [(1, [Wait 100, Expire]), (2, [Wait 299, Expire])] (boot []))))
       = [3]
   \<and> tidy (\<lambda>_. search) mounted
   \<and> map due (timers (step (Input (lit ''pik'')) mounted)) = [300]
   \<and> requests (app (run [Input (lit ''pik''), Elapse 100, Timer, Input (lit ''pika''), Elapse 300,
        Timer, Timer] mounted)) = [default_url, search_url (lit ''pika'')]"
proof -
  have h: "list_all (\<lambda>(b, ks). waited ks < 300) [(1::nat, [Wait 100, Expire]), (2, [Wait 299, Expire])]"
    by simp
  have t: "tidy record_call (boot [])" by (rule tidy_boot)
  have a: "requests (app mounted) = [default_url]" "searchQuery (app mounted) = []"
    "now mounted = 0"
    by (simp_all add: boot_def mounted_def onMounted_def initial_def)
  have q: "lit ''pik'' \<noteq> []" "lit ''pika'' \<noteq> []" "lit ''pika'' \<noteq> lit ''pik''"
    "2 < length (lit ''pika'')"
    by (simp_all add: lit_def)
  note T = debounce_latest_call_wins [OF t h search_delay, of 3 "[Wait 1000, Expire]" 300 mounted
      "lit ''pik''" "lit ''pika''" 100 300, unfolded Let_def]
  note I = T [THEN conjunct1, THEN conjunct2, THEN conjunct2, THEN conjunct2, THEN conjunct2]
  have A: "app (idle [Wait 300, Expire, Wait 1000, Expire]
        (debounce record_call 300 3
          (invocations record_call 300 [(1, [Wait 100, Expire]), (2, [Wait 299, Expire])] (boot []))))
       = [3]"
    using I by (simp add: record_call_def boot_def del: idle.simps invocations.simps)
  have Q: "tidy (\<lambda>_. search) mounted \<and> lit ''pik'' \<noteq> [] \<and> lit ''pik'' \<noteq> searchQuery (app mounted)"
    using tidy_mounted q a(2) by simp
  note K = T [THEN conjunct2, THEN conjunct1, THEN mp, OF Q, THEN conjunct1]
  have C: "map due (timers (step (Input (lit ''pik'')) mounted)) = [300]"
    unfolding K by (simp add: a(3))
  have P: "tidy (\<lambda>_. search) mounted \<and> lit ''pik'' \<noteq> [] \<and> lit ''pik'' \<noteq> searchQuery (app mounted)
      \<and> lit ''pika'' \<noteq> [] \<and> lit ''pika'' \<noteq> lit ''pik'' \<and> (100::nat) < 300 \<and> (300::nat) \<le> 300"
    using tidy_mounted q a(2) by simp
  note J = T [THEN conjunct2, THEN conjunct2, THEN mp, OF P, THEN conjunct2, THEN conjunct2]
  have B: "requests (app (run [Input (lit ''pik''), Elapse 100, Timer, Input (lit ''pika''), Elapse 300,
        Timer, Timer] mounted)) = requests (app mounted) @ [search_url (lit ''pika'')]"
    using J q(4) by (simp del: run.simps step.simps)
  show ?thesis
    unfolding A B C using t h tidy_mounted a(1) by simp
qed

section \<open>Clearing the selection\<close>

text \<open>
  C7. \<open>clearSelection\<close> is idempotent: it sets the selected card to none, a second call
  changes nothing more, and a call when no card is selected leaves the state as it is.
\<close>

theorem clearSelection_idempotent:
  "clearSelection (clearSelection s) = clearSelection s
   \<and> selectedCard (clearSelection s) = JNull
   \<and> (selectedCard s = JNull \<longrightarrow> clearSelection s = s)"
  by (simp add: clearSelection_def)

theorem clearSelection_idempotent_witness:
  "selectedCard initial = JNull \<and> clearSelection initial = initial
   \<and> clearSelection (clearSelection (initial\<lparr>selectedCard := furret\<rparr>)) = initial"
  using clearSelection_idempotent [of initial]
    clearSelection_idempotent [of "initial\<lparr>selectedCard := furret\<rparr>"]
  by (simp add: initial_def clearSelection_def)

section \<open>The default card\<close>

text \<open>
  C8. Mounting the component requests the one fixed card \<open>swsh3-136\<close>. When that
  request succeeds its body becomes the default card; when it fails in any way the state
  is left as it was: the default card stays null, no error message is set and no further
  request is made.
\<close>

theorem default_card_loader:
  "requests (app mounted) = [lit ''https://api.tcgdex.net/v2/en/cards/swsh3-136'']
   \<and> card (app mounted) = JNull
   \<and> onMounted_settled (Response True (Some data)) s = s\<lparr>card := data\<rparr>
   \<and> ((\<forall>d. r \<noteq> Response True (Some d)) \<longrightarrow> onMounted_settled r s = s)
   \<and> ((\<forall>d. r \<noteq> Response True (Some d)) \<longrightarrow>
        app (step (DefaultSettled r) mounted) = app mounted
        \<and> card (app (step (DefaultSettled r) mounted)) = JNull
        \<and> searchError (app (step (DefaultSettled r) mounted)) = None
        \<and> requests (app (step (DefaultSettled r) mounted)) = [default_url])"
  by (auto simp: mounted_def boot_def onMounted_def initial_def default_url_def
      onMounted_settled_def split: fetch_result.splits option.splits bool.splits)

theorem default_card_loader_witness:
  "(\<forall>d. Response False (Some furret_full) \<noteq> Response True (Some d))
   \<and> card (app (step (DefaultSettled (Response False (Some furret_full))) mounted)) = JNull
   \<and> requests (app (step (DefaultSettled (Response False (Some furret_full))) mounted))
        = [default_url]
   \<and> card (app (step (DefaultSettled (Response True (Some furret_full))) mounted)) = furret_full"
  using default_card_loader [of furret_full "app mounted" "Response False (Some furret_full)"]
  by (simp add: default_url_def)

text \<open>
  C9. Nothing but the end of the default-card request writes the default card: it is the
  same after any sequence of edits, hovers, clicks, timers and ends of search and detail
  requests, and \<open>search\<close>, \<open>selectCard\<close>, the preview handlers and
  \<open>clearSelection\<close> each leave it as it is. The card shown is the selected card when
  there is one and the default card otherwise; after \<open>clearSelection\<close> it is the
  default card again, and while a card is selected the image shown does not depend on
  the default card.
\<close>

theorem default_card_kept:
  assumes "tidy (\<lambda>_. search) w" and "\<forall>r. DefaultSettled r \<notin> set es"
  shows "card (app (run es w)) = card (app w)
       \<and> card (search s) = card s \<and> card (search_settled r s) = card s
       \<and> card (selectCard result s) = card s \<and> card (selectCard_settled result r s) = card s
       \<and> card (showPreview result s) = card s \<and> card (hidePreview s) = card s
       \<and> card (clearSelection s) = card s
       \<and> activeCard (app (run es w)) =
            (if truthy (selectedCard (app (run es w))) then selectedCard (app (run es w))
             else card (app w))
       \<and> activeCard (clearSelection s) = card s
       \<and> (truthy (selectedCard s) \<longrightarrow> cardImageUrl (s\<lparr>card := c\<rparr>) = cardImageUrl s)"
proof -
  have "card (app (run es w)) = card (app w)" using assms by (rule run_card)
  then show ?thesis
    by (simp add: search_card activeCard_def cardImageUrl_def clearSelection_def showPreview_def
        hidePreview_def selectCard_def Let_def selectCard_settled_def search_settled_def
        split: option.splits fetch_result.splits bool.splits)
qed

theorem default_card_kept_witness:
  "tidy (\<lambda>_. search) loaded \<and> (\<forall>r. DefaultSettled r \<notin> set session)
   \<and> card (app loaded) = furret_full
   \<and> card (app (run session loaded)) = furret_full
   \<and> activeCard (app (run session loaded)) = eevee
   \<and> activeCard (app (run (session @ [ClickClear]) loaded)) = furret_full"
proof -
  have h: "\<forall>r. DefaultSettled r \<notin> set session" "\<forall>r. DefaultSettled r \<notin> set (session @ [ClickClear])"
    by (simp_all add: session_def)
  have c: "card (app loaded) = furret_full"
    by (simp add: loaded_def onMounted_settled_def)
  have r: "run (session @ [ClickClear]) loaded = step ClickClear (run session loaded)"
    by (simp add: session_def)
  have s: "selectedCard (app (run (session @ [ClickClear]) loaded)) = JNull"
    unfolding r by (simp add: clearSelection_def)
  from default_card_kept [OF tidy_loaded h(1)] default_card_kept [OF tidy_loaded h(2)]
    h(1) tidy_loaded c session_selected s
  show ?thesis by (simp add: eevee_def del: run.simps step.simps)
qed

section \<open>The error message\<close>

text \<open>
  C10. \<open>search\<close> sets the error message to null first, also when the query is short
  and no request is issued. Emptying the query runs the watcher's first branch, which
  empties the result list without running \<open>search\<close>: the error message is left as it
  was.
\<close>

theorem search_error_reset:
  "searchError (search s) = None
   \<and> (length (searchQuery s) < 3 \<longrightarrow> requests (search s) = requests s)
   \<and> searchError (app (step (Input []) w)) = searchError (app w)
   \<and> calls (step (Input []) w) = calls w
   \<and> timers (step (Input []) w) = timers w
   \<and> (searchQuery (app w) \<noteq> [] \<longrightarrow> searchResults (app (step (Input []) w)) = [])"
  by (simp add: input_empty search_def Let_def del: step.simps(1))

theorem search_error_reset_witness:
  "length (searchQuery (app failed_search)) = 3
   \<and> searchError (app failed_search) = Some search_failed
   \<and> searchError (app (step (Input []) failed_search)) = Some search_failed
   \<and> searchResults (app (step (Input []) failed_search)) = []
   \<and> calls (step (Input []) failed_search) = calls failed_search
   \<and> searchError (search (app (step (Input (lit ''fu'')) failed_search))) = None
   \<and> requests (search (app (step (Input (lit ''fu'')) failed_search))) = requests (app failed_search)"
  using search_error_reset [of "app (step (Input (lit ''fu'')) failed_search)" failed_search]
  by (simp add: failed_search_eq lit_def flush_watch_def
      watch_searchQuery_def debouncedSearch_def debounce_def clearTimeout_def setTimeout_def
      timer_delay_def)

end
